theory Spec2Isabelle
  imports Complex_Main "HOL-Library.Char_ord" "HOL-Library.List_Lexorder" "HOL-Library.Multiset"
begin

section \<open>The data of wordulator.py\<close>

text \<open>
  Words are Python strings, modelled as \<open>string\<close>; a classification is the tuple of
  enum members that \<open>classify_guess\<close> returns, modelled as a list. Every exception the
  code can raise is a constructor of \<open>error\<close>; a function that can raise returns
  \<open>error + 'a\<close>, with \<open>Inl\<close> for the exception. \<open>Exception\<close> is the bare
  \<open>Exception\<close> raised by the guess limit of \<open>play_wordle\<close>; it carries the target
  word and the guess list that the message is formatted from.
\<close>

datatype Classification = BLANK | YELLOW | GREEN

datatype Mode = NO_POOL | POOL | CHUNKED_POOL

datatype error =
    IndexError
  | ValueError
  | TypeError
  | StatisticsError
  | UnboundLocalError
  | Exception string "string list"

definition MAX_WORKERS :: nat where
  "MAX_WORKERS = 8"

section \<open>classify_guess\<close>

text \<open>
  The body of the loop of \<open>classify_guess\<close> at one position: the \<open>if\<close>/\<open>elif\<close>/\<open>else\<close>
  chain. \<open>letter in potential_answer\<close> on a one-character string is membership.
\<close>

definition label :: "string \<Rightarrow> nat \<Rightarrow> char \<Rightarrow> Classification" where
  "label potential_answer pos letter =
     (if potential_answer ! pos = letter then GREEN
      else if letter \<in> set potential_answer then YELLOW
      else BLANK)"

text \<open>
  \<open>for pos, letter in enumerate(guess)\<close>: \<open>potential_answer[pos]\<close> raises IndexError
  as soon as \<open>pos\<close> reaches the length of the answer.
\<close>

fun classify_from :: "nat \<Rightarrow> string \<Rightarrow> string \<Rightarrow> error + Classification list" where
  "classify_from pos [] potential_answer = Inr []"
| "classify_from pos (letter # rest) potential_answer =
     (if length potential_answer \<le> pos then Inl IndexError
      else (case classify_from (Suc pos) rest potential_answer of
              Inl e \<Rightarrow> Inl e
            | Inr out \<Rightarrow> Inr (label potential_answer pos letter # out)))"

definition classify_guess :: "string \<Rightarrow> string \<Rightarrow> error + Classification list" where
  "classify_guess guess potential_answer = classify_from 0 guess potential_answer"

section \<open>filter_words\<close>

text \<open>
  The inner \<open>for\<close>/\<open>else\<close> of \<open>filter_words\<close> for one word, over
  \<open>enumerate(zip(classification, guess))\<close>: \<open>Inr False\<close> is a \<open>break\<close>, \<open>Inr True\<close>
  is the \<open>else\<close> branch of the loop (the word is appended). \<open>word[pos]\<close> is read only
  under GREEN and YELLOW (the \<open>and\<close> short-circuits), and raises IndexError there when
  the word is too short.
\<close>

fun keep_word :: "nat \<Rightarrow> (Classification \<times> char) list \<Rightarrow> string \<Rightarrow> error + bool" where
  "keep_word pos [] word = Inr True"
| "keep_word pos ((letter_class, letter) # rest) word =
     (if letter_class = BLANK \<and> letter \<in> set word then Inr False
      else if letter_class = GREEN then
        (if length word \<le> pos then Inl IndexError
         else if word ! pos \<noteq> letter then Inr False
         else keep_word (Suc pos) rest word)
      else if letter_class = YELLOW then
        (if length word \<le> pos then Inl IndexError
         else if word ! pos = letter \<or> letter \<notin> set word then Inr False
         else keep_word (Suc pos) rest word)
      else keep_word (Suc pos) rest word)"

fun filter_words :: "string list \<Rightarrow> string \<Rightarrow> Classification list \<Rightarrow> error + string list" where
  "filter_words [] guess classification = Inr []"
| "filter_words (word # words) guess classification =
     (case keep_word 0 (zip classification guess) word of
        Inl e \<Rightarrow> Inl e
      | Inr keep \<Rightarrow>
          (case filter_words words guess classification of
             Inl e \<Rightarrow> Inl e
           | Inr output \<Rightarrow> Inr (if keep then word # output else output)))"

section \<open>score_guess\<close>

text \<open>
  \<open>counts\<close> is a \<open>defaultdict(int)\<close>; it is modelled as an association list in
  insertion order. \<open>bump\<close> is \<open>counts[classification] += 1\<close>.
\<close>

fun bump :: "'k \<Rightarrow> ('k \<times> nat) list \<Rightarrow> ('k \<times> nat) list" where
  "bump k [] = [(k, 1)]"
| "bump k ((k', n) # rest) = (if k' = k then (k', n + 1) # rest else (k', n) # bump k rest)"

fun count_classes ::
  "string \<Rightarrow> string list \<Rightarrow> (Classification list \<times> nat) list
     \<Rightarrow> error + (Classification list \<times> nat) list" where
  "count_classes guess [] counts = Inr counts"
| "count_classes guess (potential_answer # words) counts =
     (case classify_guess guess potential_answer of
        Inl e \<Rightarrow> Inl e
      | Inr classification \<Rightarrow> count_classes guess words (bump classification counts))"

text \<open>
  \<open>statistics.mean\<close> raises StatisticsError on no data. On integers it computes the
  exact quotient of the sum by the number of values; the score is modelled as that
  rational number.
\<close>

definition mean :: "nat list \<Rightarrow> error + rat" where
  "mean xs = (if xs = [] then Inl StatisticsError
              else Inr (of_nat (sum_list xs) / of_nat (length xs)))"

definition score_guess :: "string \<Rightarrow> string list \<Rightarrow> error + rat" where
  "score_guess guess words =
     (case count_classes guess words [] of
        Inl e \<Rightarrow> Inl e
      | Inr counts \<Rightarrow> mean (map snd counts))"

section \<open>The selectors\<close>

text \<open>
  \<open>min(all_words, key=_score)\<close>: ValueError on an empty list; otherwise the keys are
  computed in order and an item replaces the current minimum only when its key is
  strictly smaller.
\<close>

fun min_key :: "string list \<Rightarrow> string list \<Rightarrow> string \<Rightarrow> rat \<Rightarrow> error + string" where
  "min_key potential_answers [] best best_score = Inr best"
| "min_key potential_answers (word # rest) best best_score =
     (case score_guess word potential_answers of
        Inl e \<Rightarrow> Inl e
      | Inr score \<Rightarrow>
          (if score < best_score then min_key potential_answers rest word score
           else min_key potential_answers rest best best_score))"

fun make_guess :: "string list \<Rightarrow> string list \<Rightarrow> error + string" where
  "make_guess potential_answers [] = Inl ValueError"
| "make_guess potential_answers (word # rest) =
     (case score_guess word potential_answers of
        Inl e \<Rightarrow> Inl e
      | Inr score \<Rightarrow> min_key potential_answers rest word score)"

text \<open>
  \<open>make_guess_with_loop\<close>: the state of its loop is \<open>min_score\<close>, \<open>guess\<close> (None at
  first) and \<open>score\<close>, which is unbound until the first iteration. The function returns
  the guess alone, or the pair \<open>(score, guess)\<close>.
\<close>

datatype loop_result = Guess "string option" | ScoreAndGuess rat "string option"

fun guess_loop ::
  "string list \<Rightarrow> string list \<Rightarrow> rat \<Rightarrow> string option \<Rightarrow> rat option
     \<Rightarrow> error + (string option \<times> rat option)" where
  "guess_loop potential_answers [] min_score guess score = Inr (guess, score)"
| "guess_loop potential_answers (word # rest) min_score guess score =
     (case score_guess word potential_answers of
        Inl e \<Rightarrow> Inl e
      | Inr score' \<Rightarrow>
          (if score' < min_score
           then guess_loop potential_answers rest score' (Some word) (Some score')
           else guess_loop potential_answers rest min_score guess (Some score')))"

definition make_guess_with_loop :: "string list \<Rightarrow> string list \<Rightarrow> bool \<Rightarrow> error + loop_result" where
  "make_guess_with_loop potential_answers possible_guesses return_score =
     (case guess_loop potential_answers possible_guesses
             (of_nat (length possible_guesses)) None None of
        Inl e \<Rightarrow> Inl e
      | Inr (guess, score) \<Rightarrow>
          (if \<not> return_score then Inr (Guess guess)
           else (case score of
                   None \<Rightarrow> Inl UnboundLocalError
                 | Some s \<Rightarrow> Inr (ScoreAndGuess s guess))))"

text \<open>
  A pool is modelled by the order in which its futures complete: \<open>pool n\<close> lists the
  indices of \<open>n\<close> submitted futures in completion order, and \<open>as_completed\<close> yields the
  futures in that order (an index that names no submitted future is skipped). A pool
  that completes every future exactly once is \<open>valid_pool\<close>; \<open>fifo\<close> completes
  them in submission order.
\<close>

type_synonym pool = "nat \<Rightarrow> nat list"

definition as_completed :: "pool \<Rightarrow> 'a list \<Rightarrow> 'a list" where
  "as_completed pool futures =
     map (\<lambda>i. futures ! i) (filter (\<lambda>i. i < length futures) (pool (length futures)))"

definition valid_pool :: "pool \<Rightarrow> bool" where
  "valid_pool pool = (\<forall>n. mset (pool n) = mset [0..<n])"

definition fifo :: pool where
  "fifo n = [0..<n]"

text \<open>
  Python compares the tuples \<open>(score, word)\<close> lexicographically; strings compare by
  code point, a proper prefix being smaller.
\<close>

definition tuple_lt :: "rat \<times> string \<Rightarrow> rat \<times> string \<Rightarrow> bool" where
  "tuple_lt a b = (if fst a \<noteq> fst b then fst a < fst b else snd a < snd b)"

text \<open>
  \<open>min(gen)\<close> over the generator of \<open>(future.result(), word)\<close>: a future whose task
  raised re-raises when the generator reaches it.
\<close>

fun min_from :: "rat \<times> string \<Rightarrow> ((error + rat) \<times> string) list \<Rightarrow> error + (rat \<times> string)" where
  "min_from cur [] = Inr cur"
| "min_from cur ((result, word) # rest) =
     (case result of
        Inl e \<Rightarrow> Inl e
      | Inr score \<Rightarrow>
          (if tuple_lt (score, word) cur then min_from (score, word) rest
           else min_from cur rest))"

fun min_gen :: "((error + rat) \<times> string) list \<Rightarrow> error + (rat \<times> string)" where
  "min_gen [] = Inl ValueError"
| "min_gen ((result, word) # rest) =
     (case result of
        Inl e \<Rightarrow> Inl e
      | Inr score \<Rightarrow> min_from (score, word) rest)"

definition make_guess_with_pool :: "string list \<Rightarrow> string list \<Rightarrow> pool option \<Rightarrow> error + string" where
  "make_guess_with_pool potential_answers all_words pool =
     (let all_futures = map (\<lambda>word. (score_guess word potential_answers, word)) all_words;
          gen = (case pool of
                   Some p \<Rightarrow> as_completed p all_futures
                 | None \<Rightarrow> all_futures)
      in (case min_gen gen of
            Inl e \<Rightarrow> Inl e
          | Inr (score, word) \<Rightarrow> Inr word))"

text \<open>
  \<open>make_guess_with_pool_chunked\<close>. The results are the pairs \<open>(score, guess)\<close> of
  \<open>make_guess_with_loop\<close>, whose guess may be None. Comparing two such tuples with
  equal scores and different guesses compares the guesses, and \<open>None < 'abc'\<close> raises
  TypeError.
\<close>

fun result_lt :: "rat \<times> string option \<Rightarrow> rat \<times> string option \<Rightarrow> error + bool" where
  "result_lt (s1, g1) (s2, g2) =
     (if s1 \<noteq> s2 then Inr (s1 < s2)
      else if g1 = g2 then Inr False
      else (case (g1, g2) of
              (Some w1, Some w2) \<Rightarrow> Inr (w1 < w2)
            | _ \<Rightarrow> Inl TypeError))"

fun min_result_from ::
  "rat \<times> string option \<Rightarrow> (rat \<times> string option) list \<Rightarrow> error + (rat \<times> string option)" where
  "min_result_from cur [] = Inr cur"
| "min_result_from cur (r # rest) =
     (case result_lt r cur of
        Inl e \<Rightarrow> Inl e
      | Inr lt \<Rightarrow> (if lt then min_result_from r rest else min_result_from cur rest))"

fun min_results :: "(rat \<times> string option) list \<Rightarrow> error + (rat \<times> string option)" where
  "min_results [] = Inl ValueError"
| "min_results (r # rest) = min_result_from r rest"

text \<open>
  \<open>[future.result() for future in futures.as_completed(all_futures)]\<close>: the first
  future, in completion order, whose task raised re-raises. Every task was called with
  \<open>return_score=True\<close>, so a result is a pair; the last equation is never reached
  from \<open>make_guess_with_pool_chunked\<close> (unpacking a bare guess into \<open>score, word\<close>
  would raise).
\<close>

fun collect_results :: "(error + loop_result) list \<Rightarrow> error + (rat \<times> string option) list" where
  "collect_results [] = Inr []"
| "collect_results (Inl e # rest) = Inl e"
| "collect_results (Inr (ScoreAndGuess s g) # rest) =
     (case collect_results rest of
        Inl e \<Rightarrow> Inl e
      | Inr rs \<Rightarrow> Inr ((s, g) # rs))"
| "collect_results (Inr (Guess g) # rest) = Inl TypeError"

definition make_guess_with_pool_chunked ::
  "string list \<Rightarrow> string list \<Rightarrow> pool \<Rightarrow> error + string option" where
  "make_guess_with_pool_chunked potential_answers all_words pool =
     (let n = (length all_words + MAX_WORKERS - 1) div MAX_WORKERS;
          splits = map (\<lambda>i. take n (drop (i * n) all_words)) [0..<MAX_WORKERS];
          all_futures = map (\<lambda>guesses. make_guess_with_loop potential_answers guesses True)
                          (filter (\<lambda>guesses. guesses \<noteq> []) splits)
      in (case collect_results (as_completed pool all_futures) of
            Inl e \<Rightarrow> Inl e
          | Inr split_results \<Rightarrow>
              (case min_results split_results of
                 Inl e \<Rightarrow> Inl e
               | Inr (score, word) \<Rightarrow> Inr word)))"

section \<open>play_wordle\<close>

text \<open>
  The variables of \<open>play_wordle\<close> that change from turn to turn. \<open>guesses\<close> is the
  vocabulary handed to the selector.
\<close>

record game =
  potential_answers :: "string list"
  guesses :: "string list"
  guess_list :: "string list"

text \<open>The part of \<open>play_wordle\<close> before the loop.\<close>

definition init_game :: "string list \<Rightarrow> string option \<Rightarrow> string \<Rightarrow> bool \<Rightarrow> error + game" where
  "init_game words first_guess target_word hard_mode =
     (case first_guess of
        Some fg \<Rightarrow>
          (case classify_guess fg target_word of
             Inl e \<Rightarrow> Inl e
           | Inr classify_first \<Rightarrow>
               (case filter_words words fg classify_first of
                  Inl e \<Rightarrow> Inl e
                | Inr pa \<Rightarrow>
                    Inr \<lparr>potential_answers = pa,
                         guesses = (if hard_mode then pa else words),
                         guess_list = [fg]\<rparr>))
      | None \<Rightarrow>
          Inr \<lparr>potential_answers = words,
               guesses = words,
               guess_list = []\<rparr>)"

text \<open>
  The selector call of the loop. Only the chunked selector can return None; the other
  two return a word.
\<close>

definition select_guess :: "Mode \<Rightarrow> pool \<Rightarrow> string list \<Rightarrow> string list \<Rightarrow> error + string option" where
  "select_guess mode pool pa gs =
     (case mode of
        NO_POOL \<Rightarrow> (case make_guess pa gs of Inl e \<Rightarrow> Inl e | Inr w \<Rightarrow> Inr (Some w))
      | POOL \<Rightarrow> (case make_guess_with_pool pa gs (Some pool) of Inl e \<Rightarrow> Inl e | Inr w \<Rightarrow> Inr (Some w))
      | CHUNKED_POOL \<Rightarrow> make_guess_with_pool_chunked pa gs pool)"

text \<open>
  One iteration of the \<open>while\<close> loop. \<open>classify_guess(None, target_word)\<close> raises
  TypeError (None is not iterable). The guess limit is checked after the candidates
  and the vocabulary have been updated and before the guess is appended.
\<close>

definition turn :: "string \<Rightarrow> bool \<Rightarrow> Mode \<Rightarrow> pool \<Rightarrow> game \<Rightarrow> error + game" where
  "turn target_word hard_mode mode pool s =
     (case select_guess mode pool (potential_answers s) (guesses s) of
        Inl e \<Rightarrow> Inl e
      | Inr None \<Rightarrow> Inl TypeError
      | Inr (Some guess) \<Rightarrow>
          (case classify_guess guess target_word of
             Inl e \<Rightarrow> Inl e
           | Inr classified \<Rightarrow>
               (case filter_words (potential_answers s) guess classified of
                  Inl e \<Rightarrow> Inl e
                | Inr pa \<Rightarrow>
                    (let gs = (if hard_mode
                               then filter (\<lambda>i. i \<noteq> guess \<and> i \<notin> set (guess_list s)) pa
                               else filter (\<lambda>i. i \<noteq> guess) (guesses s))
                     in if length (guess_list s) > 20
                        then Inl (Exception target_word (guess_list s))
                        else Inr \<lparr>potential_answers = pa,
                                  guesses = gs,
                                  guess_list = guess_list s @ [guess]\<rparr>))))"

text \<open>
  The \<open>while\<close> loop. It ends: a turn that does not raise makes the guess list longer,
  and a turn entered with more than 20 guesses raises.
\<close>

function play_loop :: "string \<Rightarrow> bool \<Rightarrow> Mode \<Rightarrow> pool \<Rightarrow> game \<Rightarrow> error + game" where
  "play_loop target_word hard_mode mode pool s =
     (if length (potential_answers s) > 1
      then (case turn target_word hard_mode mode pool s of
              Inl e \<Rightarrow> Inl e
            | Inr s' \<Rightarrow> play_loop target_word hard_mode mode pool s')
      else Inr s)"
  by pat_completeness auto
termination
proof (relation "measure (\<lambda>(target_word, hard_mode, mode, pool, s). 21 - length (guess_list s))")
  show "wf (measure (\<lambda>(target_word, hard_mode, mode, pool, s). 21 - length (guess_list s)))"
    by simp
next
  fix target_word hard_mode mode pool s s'
  assume "turn target_word hard_mode mode pool s = Inr s'"
  then have "length (guess_list s) \<le> 20 \<and> length (guess_list s') = Suc (length (guess_list s))"
    by (auto simp: turn_def Let_def split: sum.splits option.splits if_splits)
  then show "((target_word, hard_mode, mode, pool, s'), (target_word, hard_mode, mode, pool, s))
      \<in> measure (\<lambda>(target_word, hard_mode, mode, pool, s). 21 - length (guess_list s))"
    by (clarsimp; arith)
qed

declare play_loop.simps [simp del]

text \<open>
  After the loop: \<open>potential_answers[0]\<close> raises IndexError when no candidate is left.
\<close>

definition play_wordle ::
  "string list \<Rightarrow> string option \<Rightarrow> string \<Rightarrow> bool \<Rightarrow> Mode \<Rightarrow> pool \<Rightarrow> error + string list" where
  "play_wordle words first_guess target_word hard_mode mode pool =
     (case init_game words first_guess target_word hard_mode of
        Inl e \<Rightarrow> Inl e
      | Inr s0 \<Rightarrow>
          (case play_loop target_word hard_mode mode pool s0 of
             Inl e \<Rightarrow> Inl e
           | Inr s \<Rightarrow>
               (case potential_answers s of
                  [] \<Rightarrow> Inl IndexError
                | answer # _ \<Rightarrow> Inr (guess_list s @ [answer]))))"

text \<open>
  The game after \<open>n\<close> complete iterations of the loop: \<open>Some\<close> of the state when the
  loop condition held and the turn did not raise, \<open>n\<close> times.
\<close>

fun after_turns :: "string \<Rightarrow> bool \<Rightarrow> Mode \<Rightarrow> pool \<Rightarrow> nat \<Rightarrow> game \<Rightarrow> game option" where
  "after_turns target_word hard_mode mode pool 0 s = Some s"
| "after_turns target_word hard_mode mode pool (Suc n) s =
     (if length (potential_answers s) > 1
      then (case turn target_word hard_mode mode pool s of
              Inl e \<Rightarrow> None
            | Inr s' \<Rightarrow> after_turns target_word hard_mode mode pool n s')
      else None)"


section \<open>Classifier and filter agree\<close>

text \<open>
  The filter keeps a word exactly when the inner loop runs to its \<open>else\<close> branch; the
  labels that \<open>classify_guess\<close> gives a word are labels that this word passes.
\<close>

lemma classify_from_keeps:
  "classify_from pos g a = Inr v \<Longrightarrow> keep_word pos (zip v g) a = Inr True"
proof (induction g arbitrary: pos v)
  case Nil
  then show ?case by simp
next
  case (Cons l rest)
  then show ?case
    by (auto simp: label_def split: if_splits sum.splits)
qed

lemma classify_from_total:
  "pos + length g \<le> length a \<Longrightarrow> \<exists>v. classify_from pos g a = Inr v"
proof (induction g arbitrary: pos)
  case Nil
  then show ?case by simp
next
  case (Cons l rest)
  then have "Suc pos + length rest \<le> length a" by simp
  from Cons.IH[OF this] obtain v where "classify_from (Suc pos) rest a = Inr v" by blast
  with Cons.prems show ?case by simp
qed

lemma classify_guess_total:
  "length g \<le> length a \<Longrightarrow> \<exists>v. classify_guess g a = Inr v"
  unfolding classify_guess_def using classify_from_total[of 0 g a] by simp

lemma keep_word_total:
  "pos + length zs \<le> length w \<Longrightarrow> \<exists>b. keep_word pos zs w = Inr b"
  by (induction pos zs w rule: keep_word.induct) auto

lemma filter_words_Inr:
  "filter_words S g v = Inr out \<Longrightarrow>
     out = filter (\<lambda>w. keep_word 0 (zip v g) w = Inr True) S \<and>
     (\<forall>w\<in>set S. \<exists>b. keep_word 0 (zip v g) w = Inr b)"
  by (induction S arbitrary: out) (auto split: sum.splits if_splits)

lemma filter_words_intro:
  "\<forall>w\<in>set S. \<exists>b. keep_word 0 (zip v g) w = Inr b \<Longrightarrow>
     filter_words S g v = Inr (filter (\<lambda>w. keep_word 0 (zip v g) w = Inr True) S)"
  by (induction S) (auto split: sum.splits)

lemma filter_words_total:
  assumes wf: "\<forall>w\<in>set S. length g \<le> length w"
  shows "\<exists>out. filter_words S g v = Inr out"
proof -
  have "\<forall>w\<in>set S. \<exists>b. keep_word 0 (zip v g) w = Inr b"
  proof
    fix w assume "w \<in> set S"
    with wf have "0 + length (zip v g) \<le> length w" by auto
    then show "\<exists>b. keep_word 0 (zip v g) w = Inr b" by (rule keep_word_total)
  qed
  then show ?thesis using filter_words_intro by blast
qed

lemma filter_words_length:
  "filter_words S g v = Inr out \<Longrightarrow> length out \<le> length S"
  using filter_words_Inr[of S g v out] by simp

lemma filter_words_again:
  assumes a: "filter_words S g v = Inr out"
  shows "filter_words out g v = Inr out"
proof -
  let ?P = "\<lambda>w. keep_word 0 (zip v g) w = Inr True"
  from filter_words_Inr[OF a] have out: "out = filter ?P S" by simp
  then have "\<forall>w\<in>set out. \<exists>b. keep_word 0 (zip v g) w = Inr b" by auto
  from filter_words_intro[OF this] have "filter_words out g v = Inr (filter ?P out)" .
  also have "filter ?P out = out" using out by simp
  finally show ?thesis .
qed

lemma filter_words_keeps_answer:
  assumes "classify_guess g a = Inr v" and "filter_words S g v = Inr out" and "a \<in> set S"
  shows "a \<in> set out"
proof -
  from assms(1) have "keep_word 0 (zip v g) a = Inr True"
    unfolding classify_guess_def by (rule classify_from_keeps)
  with filter_words_Inr[OF assms(2)] assms(3) show ?thesis by simp
qed

text \<open>What a turn that does not raise has done.\<close>

lemma turn_Inr:
  "turn tw hard mode pool s = Inr s' \<Longrightarrow>
     \<exists>guess classified.
       select_guess mode pool (potential_answers s) (guesses s) = Inr (Some guess) \<and>
       classify_guess guess tw = Inr classified \<and>
       filter_words (potential_answers s) guess classified = Inr (potential_answers s') \<and>
       guess_list s' = guess_list s @ [guess] \<and> length (guess_list s) \<le> 20 \<and>
       guesses s' =
         (if hard then filter (\<lambda>i. i \<noteq> guess \<and> i \<notin> set (guess_list s)) (potential_answers s')
          else filter (\<lambda>i. i \<noteq> guess) (guesses s))"
  by (auto simp: turn_def Let_def split: sum.splits option.splits if_splits)

lemma init_game_Inr:
  "init_game words fg tw hard = Inr s0 \<Longrightarrow>
     (case fg of
        None \<Rightarrow> potential_answers s0 = words \<and> guesses s0 = words \<and> guess_list s0 = []
      | Some g \<Rightarrow>
          (\<exists>v. classify_guess g tw = Inr v \<and> filter_words words g v = Inr (potential_answers s0)) \<and>
          guesses s0 = (if hard then potential_answers s0 else words) \<and> guess_list s0 = [g])"
  by (auto simp: init_game_def split: sum.splits option.splits)

text \<open>The first turn of Scenario A, evaluated.\<close>

lemma scenario_A_first_turn:
  "turn ''snake'' True NO_POOL fifo
     \<lparr>potential_answers = [''crane'', ''slate'', ''snake'', ''stale''], guesses = [''crane'', ''slate'', ''snake'', ''stale''], guess_list = []\<rparr>
   = Inr \<lparr>potential_answers = [''snake''], guesses = [''snake''], guess_list = [''slate'']\<rparr>"
  by code_simp

lemma scenario_A_seed:
  "init_game [''crane'', ''slate'', ''snake'', ''stale''] (Some ''crane'') ''snake'' True
     = Inr \<lparr>potential_answers = [''snake''], guesses = [''snake''], guess_list = [''crane'']\<rparr>"
  by code_simp

lemma scenario_A_crane:
  "classify_guess ''crane'' ''snake'' = Inr [BLANK, BLANK, GREEN, YELLOW, GREEN] \<and>
   filter_words [''crane'', ''slate'', ''snake'', ''stale''] ''crane'' [BLANK, BLANK, GREEN, YELLOW, GREEN] = Inr [''snake'']"
  by code_simp

section \<open>Soundness of pruning\<close>

text \<open>
  C1: whenever classifying the guess \<open>g\<close> against the answer \<open>a\<close> gives \<open>v\<close> and
  filtering a list \<open>S\<close> that contains \<open>a\<close> by \<open>g\<close> and \<open>v\<close> gives \<open>out\<close>, the answer is
  in \<open>out\<close>; both calls do return when no word of \<open>S\<close> is shorter than the guess. In
  particular a turn of the game loop that does not raise keeps the target word among
  the candidates.
\<close>

theorem filter_keeps_answer:
  assumes "a \<in> set S"
  shows "(\<forall>v out. classify_guess g a = Inr v \<and> filter_words S g v = Inr out \<longrightarrow> a \<in> set out) \<and>
         ((\<forall>w\<in>set S. length g \<le> length w) \<longrightarrow>
            (\<exists>v out. classify_guess g a = Inr v \<and> filter_words S g v = Inr out \<and> a \<in> set out)) \<and>
         (\<forall>s'. tw \<in> set (potential_answers s) \<and> turn tw hard mode pool s = Inr s'
               \<longrightarrow> tw \<in> set (potential_answers s'))"
proof -
  have general: "a \<in> set out"
    if "classify_guess g a = Inr v" "filter_words S g v = Inr out" for v out
    using filter_words_keeps_answer[OF that assms] .
  have total: "\<exists>v out. classify_guess g a = Inr v \<and> filter_words S g v = Inr out \<and> a \<in> set out"
    if wf: "\<forall>w\<in>set S. length g \<le> length w"
  proof -
    from wf assms have "length g \<le> length a" by auto
    then obtain v where v: "classify_guess g a = Inr v"
      using classify_guess_total by blast
    from filter_words_total[OF wf] obtain out where "filter_words S g v = Inr out" by blast
    with v general show ?thesis by blast
  qed
  have game: "tw \<in> set (potential_answers s')"
    if "tw \<in> set (potential_answers s)" "turn tw hard mode pool s = Inr s'" for s'
  proof -
    from turn_Inr[OF that(2)] obtain guess classified where
      "classify_guess guess tw = Inr classified"
      "filter_words (potential_answers s) guess classified = Inr (potential_answers s')"
      by blast
    then show ?thesis using that(1) by (rule filter_words_keeps_answer)
  qed
  from general total game show ?thesis by blast
qed

theorem filter_keeps_answer_witness:
  "''snake'' \<in> set [''crane'', ''slate'', ''snake'', ''stale''] \<and>
   classify_guess ''crane'' ''snake'' = Inr [BLANK, BLANK, GREEN, YELLOW, GREEN] \<and>
   filter_words [''crane'', ''slate'', ''snake'', ''stale''] ''crane'' [BLANK, BLANK, GREEN, YELLOW, GREEN] = Inr [''snake''] \<and>
   ''snake'' \<in> set [''snake''] \<and>
   (\<exists>v out. classify_guess ''crane'' ''snake'' = Inr v \<and>
      filter_words [''crane'', ''slate'', ''snake'', ''stale''] ''crane'' v = Inr out \<and> ''snake'' \<in> set out) \<and>
   turn ''snake'' True NO_POOL fifo
     \<lparr>potential_answers = [''crane'', ''slate'', ''snake'', ''stale''], guesses = [''crane'', ''slate'', ''snake'', ''stale''], guess_list = []\<rparr>
     = Inr \<lparr>potential_answers = [''snake''], guesses = [''snake''], guess_list = [''slate'']\<rparr> \<and>
   ''snake'' \<in> set (potential_answers
     \<lparr>potential_answers = [''snake''], guesses = [''snake''], guess_list = [''slate'']\<rparr>)"
proof -
  have mem: "''snake'' \<in> set [''crane'', ''slate'', ''snake'', ''stale'']" by simp
  have wf: "\<forall>w\<in>set [''crane'', ''slate'', ''snake'', ''stale'']. length ''crane'' \<le> length w" by simp
  note inst = filter_keeps_answer[OF mem, of "''crane''" "''snake''"
      "\<lparr>potential_answers = [''crane'', ''slate'', ''snake'', ''stale''], guesses = [''crane'', ''slate'', ''snake'', ''stale''], guess_list = []\<rparr>" True NO_POOL fifo]
  from inst scenario_A_crane have 1: "''snake'' \<in> set [''snake'']" by blast
  from inst wf have 2: "\<exists>v out. classify_guess ''crane'' ''snake'' = Inr v \<and>
      filter_words [''crane'', ''slate'', ''snake'', ''stale''] ''crane'' v = Inr out \<and> ''snake'' \<in> set out"
    by blast
  have "''snake'' \<in> set (potential_answers
      \<lparr>potential_answers = [''crane'', ''slate'', ''snake'', ''stale''], guesses = [''crane'', ''slate'', ''snake'', ''stale''], guess_list = []\<rparr>)" by simp
  with inst scenario_A_first_turn have 3: "''snake'' \<in> set (potential_answers
     \<lparr>potential_answers = [''snake''], guesses = [''snake''], guess_list = [''slate'']\<rparr>)"
    by blast
  from mem scenario_A_crane scenario_A_first_turn 1 2 3 show ?thesis by blast
qed

section \<open>Monotonicity of pruning\<close>

text \<open>
  C7: whenever \<open>filter_words\<close> returns, its result is no longer than the list it was
  given (and it does return when no word is shorter than the guess); so the candidate
  list after a turn of the game loop, and after the seed guess, is no longer than
  before.
\<close>

theorem filter_words_never_longer:
  "(\<forall>out. filter_words S g v = Inr out \<longrightarrow> length out \<le> length S) \<and>
   ((\<forall>w\<in>set S. length g \<le> length w) \<longrightarrow>
      (\<exists>out. filter_words S g v = Inr out \<and> length out \<le> length S)) \<and>
   (\<forall>s'. turn tw hard mode pool s = Inr s'
         \<longrightarrow> length (potential_answers s') \<le> length (potential_answers s)) \<and>
   (\<forall>s0. init_game words fg tw hard = Inr s0
         \<longrightarrow> length (potential_answers s0) \<le> length words)"
proof -
  have 1: "\<forall>out. filter_words S g v = Inr out \<longrightarrow> length out \<le> length S"
    using filter_words_length by blast
  have 2: "(\<forall>w\<in>set S. length g \<le> length w) \<longrightarrow>
      (\<exists>out. filter_words S g v = Inr out \<and> length out \<le> length S)"
    using filter_words_total[of S g v] filter_words_length by blast
  have 3: "length (potential_answers s') \<le> length (potential_answers s)"
    if "turn tw hard mode pool s = Inr s'" for s'
    using turn_Inr[OF that] filter_words_length by blast
  have 4: "length (potential_answers s0) \<le> length words"
    if "init_game words fg tw hard = Inr s0" for s0
    using init_game_Inr[OF that] filter_words_length by (cases fg) auto
  from 1 2 3 4 show ?thesis by blast
qed

theorem filter_words_never_longer_witness:
  "filter_words [''crane'', ''slate'', ''snake'', ''stale''] ''crane'' [BLANK, BLANK, GREEN, YELLOW, GREEN] = Inr [''snake''] \<and>
   length [''snake''] \<le> length [''crane'', ''slate'', ''snake'', ''stale''] \<and>
   (\<exists>out. filter_words [''crane'', ''slate'', ''snake'', ''stale''] ''crane'' [BLANK, BLANK, GREEN, YELLOW, GREEN] = Inr out \<and>
      length out \<le> length [''crane'', ''slate'', ''snake'', ''stale'']) \<and>
   turn ''snake'' True NO_POOL fifo
     \<lparr>potential_answers = [''crane'', ''slate'', ''snake'', ''stale''], guesses = [''crane'', ''slate'', ''snake'', ''stale''], guess_list = []\<rparr>
     = Inr \<lparr>potential_answers = [''snake''], guesses = [''snake''], guess_list = [''slate'']\<rparr> \<and>
   length (potential_answers
     \<lparr>potential_answers = [''snake''], guesses = [''snake''], guess_list = [''slate'']\<rparr>)
   \<le> length (potential_answers
     \<lparr>potential_answers = [''crane'', ''slate'', ''snake'', ''stale''], guesses = [''crane'', ''slate'', ''snake'', ''stale''], guess_list = []\<rparr>) \<and>
   init_game [''crane'', ''slate'', ''snake'', ''stale''] (Some ''crane'') ''snake'' True
     = Inr \<lparr>potential_answers = [''snake''], guesses = [''snake''], guess_list = [''crane'']\<rparr> \<and>
   length (potential_answers
     \<lparr>potential_answers = [''snake''], guesses = [''snake''], guess_list = [''crane'']\<rparr>)
   \<le> length [''crane'', ''slate'', ''snake'', ''stale'']"
proof -
  note inst = filter_words_never_longer[of "[''crane'', ''slate'', ''snake'', ''stale'']" "''crane''"
      "[BLANK, BLANK, GREEN, YELLOW, GREEN]" "''snake''" True NO_POOL fifo
      "\<lparr>potential_answers = [''crane'', ''slate'', ''snake'', ''stale''], guesses = [''crane'', ''slate'', ''snake'', ''stale''], guess_list = []\<rparr>"
      "[''crane'', ''slate'', ''snake'', ''stale'']" "Some ''crane''"]
  have wf: "\<forall>w\<in>set [''crane'', ''slate'', ''snake'', ''stale'']. length ''crane'' \<le> length w" by simp
  from inst scenario_A_crane have 1: "length [''snake''] \<le> length [''crane'', ''slate'', ''snake'', ''stale'']"
    by blast
  from inst wf have 2:
    "\<exists>out. filter_words [''crane'', ''slate'', ''snake'', ''stale''] ''crane'' [BLANK, BLANK, GREEN, YELLOW, GREEN] = Inr out \<and>
      length out \<le> length [''crane'', ''slate'', ''snake'', ''stale'']"
    by blast
  from inst scenario_A_first_turn have 3: "length (potential_answers
     \<lparr>potential_answers = [''snake''], guesses = [''snake''], guess_list = [''slate'']\<rparr>)
   \<le> length (potential_answers
     \<lparr>potential_answers = [''crane'', ''slate'', ''snake'', ''stale''], guesses = [''crane'', ''slate'', ''snake'', ''stale''], guess_list = []\<rparr>)"
    by blast
  from inst scenario_A_seed have 4: "length (potential_answers
     \<lparr>potential_answers = [''snake''], guesses = [''snake''], guess_list = [''crane'']\<rparr>)
   \<le> length [''crane'', ''slate'', ''snake'', ''stale'']"
    by blast
  from scenario_A_crane scenario_A_first_turn scenario_A_seed 1 2 3 4 show ?thesis by blast
qed

section \<open>Idempotence of pruning\<close>

text \<open>
  C8: filtering the result of \<open>filter_words(S, g, v)\<close> again by the same guess and
  vector gives the same list; where the first call raises, so does the composition.
\<close>

theorem filter_words_idempotent:
  "(case filter_words S g v of
      Inl e \<Rightarrow> Inl e
    | Inr out \<Rightarrow> filter_words out g v) = filter_words S g v"
  by (cases "filter_words S g v") (simp_all add: filter_words_again)

section \<open>The score\<close>

text \<open>
  The association list built by \<open>score_guess\<close> has one key for each classification
  seen, and its counts add up to the number of words.
\<close>

lemma bump_keys:
  "map fst (bump k cs) = (if k \<in> fst ` set cs then map fst cs else map fst cs @ [k])"
  by (induction k cs rule: bump.induct) auto

lemma bump_sum: "sum_list (map snd (bump k cs)) = Suc (sum_list (map snd cs))"
  by (induction k cs rule: bump.induct) auto

lemma bump_distinct: "distinct (map fst cs) \<Longrightarrow> distinct (map fst (bump k cs))"
  by (simp add: bump_keys)

lemma bump_key_set: "fst ` set (bump k cs) = insert k (fst ` set cs)"
  using arg_cong[OF bump_keys[of k cs], of set] by (auto split: if_splits)

lemma count_classes_Inr:
  "count_classes g ws cs = Inr cs' \<Longrightarrow> distinct (map fst cs) \<Longrightarrow>
     distinct (map fst cs') \<and>
     fst ` set cs' = fst ` set cs \<union> {c. \<exists>w\<in>set ws. classify_guess g w = Inr c} \<and>
     sum_list (map snd cs') = sum_list (map snd cs) + length ws \<and>
     (\<forall>w\<in>set ws. \<exists>c. classify_guess g w = Inr c)"
proof (induction ws arbitrary: cs)
  case Nil
  then show ?case by simp
next
  case (Cons w ws)
  from Cons.prems(1) obtain c where c: "classify_guess g w = Inr c"
    and rest: "count_classes g ws (bump c cs) = Inr cs'"
    by (auto split: sum.splits)
  from Cons.IH[OF rest bump_distinct[OF Cons.prems(2)]] c show ?case
    by (auto simp: bump_key_set bump_sum)
qed

lemma count_classes_total:
  "\<forall>w\<in>set ws. \<exists>c. classify_guess g w = Inr c \<Longrightarrow> \<exists>cs'. count_classes g ws cs = Inr cs'"
  by (induction ws arbitrary: cs) auto

lemma score_guess_Inr:
  assumes "score_guess g S = Inr s"
  shows "S \<noteq> [] \<and> (\<forall>w\<in>set S. \<exists>c. classify_guess g w = Inr c) \<and>
         s = of_nat (length S) / of_nat (length (remdups (map (classify_guess g) S)))"
proof -
  from assms obtain cs where cs: "count_classes g S [] = Inr cs" and m: "mean (map snd cs) = Inr s"
    by (auto simp: score_guess_def split: sum.splits)
  from count_classes_Inr[OF cs] have d: "distinct (map fst cs)"
    and keys: "fst ` set cs = {c. \<exists>w\<in>set S. classify_guess g w = Inr c}"
    and total: "sum_list (map snd cs) = length S"
    and ok: "\<forall>w\<in>set S. \<exists>c. classify_guess g w = Inr c"
    by auto
  from m have ne: "cs \<noteq> []" and s: "s = of_nat (sum_list (map snd cs)) / of_nat (length cs)"
    by (auto simp: mean_def split: if_splits)
  from ne keys have "S \<noteq> []" by (cases cs) auto
  have "classify_guess g ` set S = Inr ` (fst ` set cs)"
    using keys ok by (auto simp: image_iff) force+
  then have "card (classify_guess g ` set S) = card (fst ` set cs)"
    by (simp add: card_image)
  also have "\<dots> = length cs"
    using distinct_card[OF d] by simp
  finally have "length (remdups (map (classify_guess g) S)) = length cs"
    by (simp add: length_remdups_card_conv)
  with s total \<open>S \<noteq> []\<close> ok show ?thesis by simp
qed

lemma score_guess_total:
  assumes "S \<noteq> []" and "\<forall>w\<in>set S. length g \<le> length w"
  shows "\<exists>s. score_guess g S = Inr s"
proof -
  from assms(2) have "\<forall>w\<in>set S. \<exists>c. classify_guess g w = Inr c"
    using classify_guess_total by blast
  from count_classes_total[OF this] obtain cs where cs: "count_classes g S [] = Inr cs" by blast
  from count_classes_Inr[OF cs] have "sum_list (map snd cs) = length S" by simp
  with assms(1) have "cs \<noteq> []" by auto
  with cs show ?thesis by (simp add: score_guess_def mean_def)
qed

lemma score_guess_ge_1:
  assumes "score_guess g S = Inr s"
  shows "1 \<le> s"
proof -
  let ?k = "length (remdups (map (classify_guess g) S))"
  from score_guess_Inr[OF assms] have ne: "S \<noteq> []" and s: "s = of_nat (length S) / of_nat ?k"
    by auto
  have "?k \<le> length S" using length_remdups_leq[of "map (classify_guess g) S"] by simp
  moreover from ne have "0 < ?k" by (cases S) auto
  ultimately show ?thesis unfolding s by (simp add: le_divide_eq)
qed


text \<open>
  C5: for a non-empty candidate list \<open>S\<close>, whenever \<open>score_guess(g, S)\<close> returns, the
  score is the length of \<open>S\<close> divided by the number of distinct classifications of \<open>g\<close>
  against the words of \<open>S\<close>; it does return when no candidate is shorter than the
  guess.
\<close>

theorem score_guess_is_mean_bucket_size:
  assumes "S \<noteq> []"
  shows "(\<forall>s. score_guess g S = Inr s \<longrightarrow>
            s = of_nat (length S) / of_nat (length (remdups (map (classify_guess g) S)))) \<and>
         ((\<forall>w\<in>set S. length g \<le> length w) \<longrightarrow>
            score_guess g S
              = Inr (of_nat (length S) / of_nat (length (remdups (map (classify_guess g) S)))))"
  using score_guess_Inr[of g S] score_guess_total[OF assms, of g] by metis

lemma score_examples:
  "score_guess ''crane'' [''crane'', ''slate'', ''snake'', ''stale''] = Inr (4 / 3) \<and>
   map (classify_guess ''crane'') [''crane'', ''slate'', ''snake'', ''stale'']
     = [Inr [GREEN, GREEN, GREEN, GREEN, GREEN], Inr [BLANK, BLANK, GREEN, BLANK, GREEN],
        Inr [BLANK, BLANK, GREEN, YELLOW, GREEN], Inr [BLANK, BLANK, GREEN, BLANK, GREEN]]"
  by code_simp

theorem score_guess_is_mean_bucket_size_witness:
  "[''crane'', ''slate'', ''snake'', ''stale''] \<noteq> [] \<and>
   score_guess ''crane'' [''crane'', ''slate'', ''snake'', ''stale''] = Inr (4 / 3) \<and>
   (4 / 3 :: rat) = of_nat (length [''crane'', ''slate'', ''snake'', ''stale''])
     / of_nat (length (remdups (map (classify_guess ''crane'') [''crane'', ''slate'', ''snake'', ''stale'']))) \<and>
   score_guess ''crane'' [''crane'', ''slate'', ''snake'', ''stale'']
     = Inr (of_nat (length [''crane'', ''slate'', ''snake'', ''stale''])
         / of_nat (length (remdups (map (classify_guess ''crane'') [''crane'', ''slate'', ''snake'', ''stale'']))))"
proof -
  have ne: "[''crane'', ''slate'', ''snake'', ''stale''] \<noteq> []" by simp
  have wf: "\<forall>w\<in>set [''crane'', ''slate'', ''snake'', ''stale'']. length ''crane'' \<le> length w" by simp
  note inst = score_guess_is_mean_bucket_size[OF ne, of "''crane''"]
  from inst[THEN conjunct1] score_examples
  have 1: "(4 / 3 :: rat) = of_nat (length [''crane'', ''slate'', ''snake'', ''stale''])
     / of_nat (length (remdups (map (classify_guess ''crane'') [''crane'', ''slate'', ''snake'', ''stale''])))"
    by blast
  from inst[THEN conjunct2] wf
  have 2: "score_guess ''crane'' [''crane'', ''slate'', ''snake'', ''stale'']
     = Inr (of_nat (length [''crane'', ''slate'', ''snake'', ''stale''])
         / of_nat (length (remdups (map (classify_guess ''crane'') [''crane'', ''slate'', ''snake'', ''stale'']))))"
    by blast
  from ne score_examples 1 2 show ?thesis by blast
qed

section \<open>The sequential and the flat-parallel selector\<close>

text \<open>
  \<open>min\<close> with a key returns the first word of least score; \<open>min\<close> over the pairs
  \<open>(score, word)\<close> returns the pair that is least in the lexicographic order, in
  whatever order the futures complete.
\<close>

lemma min_key_spec:
  assumes "\<forall>w\<in>set ws. \<exists>t. score_guess w S = Inr t"
  shows "\<exists>g. min_key S ws best bs = Inr g \<and>
           ((g = best \<and> (\<forall>w\<in>set ws. \<forall>t. score_guess w S = Inr t \<longrightarrow> bs \<le> t)) \<or>
            (\<exists>pre post s. ws = pre @ g # post \<and> score_guess g S = Inr s \<and> s < bs \<and>
               (\<forall>w\<in>set pre. \<forall>t. score_guess w S = Inr t \<longrightarrow> s < t) \<and>
               (\<forall>w\<in>set post. \<forall>t. score_guess w S = Inr t \<longrightarrow> s \<le> t)))"
  using assms
proof (induction ws arbitrary: best bs)
  case Nil
  then show ?case by simp
next
  case (Cons w ws)
  from Cons.prems obtain t0 where t0: "score_guess w S = Inr t0" by auto
  from Cons.prems have rest: "\<forall>w\<in>set ws. \<exists>t. score_guess w S = Inr t" by simp
  show ?case
  proof (cases "t0 < bs")
    case True
    from Cons.IH[OF rest, of w t0] obtain g where g: "min_key S ws w t0 = Inr g"
      and alt: "(g = w \<and> (\<forall>w\<in>set ws. \<forall>t. score_guess w S = Inr t \<longrightarrow> t0 \<le> t)) \<or>
            (\<exists>pre post s. ws = pre @ g # post \<and> score_guess g S = Inr s \<and> s < t0 \<and>
               (\<forall>w\<in>set pre. \<forall>t. score_guess w S = Inr t \<longrightarrow> s < t) \<and>
               (\<forall>w\<in>set post. \<forall>t. score_guess w S = Inr t \<longrightarrow> s \<le> t))"
      by blast
    from alt have "\<exists>pre post s. w # ws = pre @ g # post \<and> score_guess g S = Inr s \<and> s < bs \<and>
               (\<forall>w\<in>set pre. \<forall>t. score_guess w S = Inr t \<longrightarrow> s < t) \<and>
               (\<forall>w\<in>set post. \<forall>t. score_guess w S = Inr t \<longrightarrow> s \<le> t)"
    proof
      assume a: "g = w \<and> (\<forall>w\<in>set ws. \<forall>t. score_guess w S = Inr t \<longrightarrow> t0 \<le> t)"
      then have "w # ws = [] @ g # ws" by simp
      with a t0 True show ?thesis by fastforce
    next
      assume "\<exists>pre post s. ws = pre @ g # post \<and> score_guess g S = Inr s \<and> s < t0 \<and>
               (\<forall>w\<in>set pre. \<forall>t. score_guess w S = Inr t \<longrightarrow> s < t) \<and>
               (\<forall>w\<in>set post. \<forall>t. score_guess w S = Inr t \<longrightarrow> s \<le> t)"
      then obtain pre post s where ws: "ws = pre @ g # post" and s: "score_guess g S = Inr s"
        and lt: "s < t0"
        and pre: "\<forall>w\<in>set pre. \<forall>t. score_guess w S = Inr t \<longrightarrow> s < t"
        and post: "\<forall>w\<in>set post. \<forall>t. score_guess w S = Inr t \<longrightarrow> s \<le> t"
        by blast
      from ws have "w # ws = (w # pre) @ g # post" by simp
      moreover from pre t0 lt have "\<forall>x\<in>set (w # pre). \<forall>t. score_guess x S = Inr t \<longrightarrow> s < t"
        by auto
      moreover from lt True have "s < bs" by simp
      ultimately show ?thesis using s post by blast
    qed
    with g t0 True show ?thesis by simp
  next
    case False
    from Cons.IH[OF rest, of best bs] obtain g where g: "min_key S ws best bs = Inr g"
      and alt: "(g = best \<and> (\<forall>w\<in>set ws. \<forall>t. score_guess w S = Inr t \<longrightarrow> bs \<le> t)) \<or>
            (\<exists>pre post s. ws = pre @ g # post \<and> score_guess g S = Inr s \<and> s < bs \<and>
               (\<forall>w\<in>set pre. \<forall>t. score_guess w S = Inr t \<longrightarrow> s < t) \<and>
               (\<forall>w\<in>set post. \<forall>t. score_guess w S = Inr t \<longrightarrow> s \<le> t))"
      by blast
    from alt have "(g = best \<and> (\<forall>x\<in>set (w # ws). \<forall>t. score_guess x S = Inr t \<longrightarrow> bs \<le> t)) \<or>
            (\<exists>pre post s. w # ws = pre @ g # post \<and> score_guess g S = Inr s \<and> s < bs \<and>
               (\<forall>w\<in>set pre. \<forall>t. score_guess w S = Inr t \<longrightarrow> s < t) \<and>
               (\<forall>w\<in>set post. \<forall>t. score_guess w S = Inr t \<longrightarrow> s \<le> t))"
    proof
      assume "g = best \<and> (\<forall>w\<in>set ws. \<forall>t. score_guess w S = Inr t \<longrightarrow> bs \<le> t)"
      with t0 False show ?thesis by auto
    next
      assume "\<exists>pre post s. ws = pre @ g # post \<and> score_guess g S = Inr s \<and> s < bs \<and>
               (\<forall>w\<in>set pre. \<forall>t. score_guess w S = Inr t \<longrightarrow> s < t) \<and>
               (\<forall>w\<in>set post. \<forall>t. score_guess w S = Inr t \<longrightarrow> s \<le> t)"
      then obtain pre post s where ws: "ws = pre @ g # post" and s: "score_guess g S = Inr s"
        and lt: "s < bs"
        and pre: "\<forall>w\<in>set pre. \<forall>t. score_guess w S = Inr t \<longrightarrow> s < t"
        and post: "\<forall>w\<in>set post. \<forall>t. score_guess w S = Inr t \<longrightarrow> s \<le> t"
        by blast
      from ws have "w # ws = (w # pre) @ g # post" by simp
      moreover from pre t0 lt False
      have "\<forall>x\<in>set (w # pre). \<forall>t. score_guess x S = Inr t \<longrightarrow> s < t"
        by auto
      ultimately show ?thesis using s post lt by blast
    qed
    with g t0 False show ?thesis by simp
  qed
qed

lemma make_guess_spec:
  assumes "V \<noteq> []" and "\<forall>w\<in>set V. \<exists>t. score_guess w S = Inr t"
  shows "\<exists>g s pre post. make_guess S V = Inr g \<and> V = pre @ g # post \<and> score_guess g S = Inr s \<and>
           (\<forall>w\<in>set pre. \<forall>t. score_guess w S = Inr t \<longrightarrow> s < t) \<and>
           (\<forall>w\<in>set post. \<forall>t. score_guess w S = Inr t \<longrightarrow> s \<le> t)"
proof -
  from assms(1) obtain w0 ws where V: "V = w0 # ws" by (cases V) auto
  with assms(2) obtain t0 where t0: "score_guess w0 S = Inr t0" by auto
  from assms(2) V have rest: "\<forall>w\<in>set ws. \<exists>t. score_guess w S = Inr t" by simp
  from min_key_spec[OF rest, of w0 t0] obtain g where g: "min_key S ws w0 t0 = Inr g"
    and alt: "(g = w0 \<and> (\<forall>w\<in>set ws. \<forall>t. score_guess w S = Inr t \<longrightarrow> t0 \<le> t)) \<or>
            (\<exists>pre post s. ws = pre @ g # post \<and> score_guess g S = Inr s \<and> s < t0 \<and>
               (\<forall>w\<in>set pre. \<forall>t. score_guess w S = Inr t \<longrightarrow> s < t) \<and>
               (\<forall>w\<in>set post. \<forall>t. score_guess w S = Inr t \<longrightarrow> s \<le> t))"
    by blast
  have mg: "make_guess S V = Inr g" using V t0 g by simp
  from alt show ?thesis
  proof
    assume a: "g = w0 \<and> (\<forall>w\<in>set ws. \<forall>t. score_guess w S = Inr t \<longrightarrow> t0 \<le> t)"
    with V have "V = [] @ g # ws" by simp
    with a t0 mg show ?thesis by fastforce
  next
    assume "\<exists>pre post s. ws = pre @ g # post \<and> score_guess g S = Inr s \<and> s < t0 \<and>
               (\<forall>w\<in>set pre. \<forall>t. score_guess w S = Inr t \<longrightarrow> s < t) \<and>
               (\<forall>w\<in>set post. \<forall>t. score_guess w S = Inr t \<longrightarrow> s \<le> t)"
    then obtain pre post s where ws: "ws = pre @ g # post" and s: "score_guess g S = Inr s"
      and lt: "s < t0"
      and pre: "\<forall>w\<in>set pre. \<forall>t. score_guess w S = Inr t \<longrightarrow> s < t"
      and post: "\<forall>w\<in>set post. \<forall>t. score_guess w S = Inr t \<longrightarrow> s \<le> t"
      by blast
    from ws V have "V = (w0 # pre) @ g # post" by simp
    moreover from pre t0 lt have "\<forall>x\<in>set (w0 # pre). \<forall>t. score_guess x S = Inr t \<longrightarrow> s < t"
      by auto
    ultimately show ?thesis using mg s post by blast
  qed
qed

lemma tuple_lt_irrefl: "\<not> tuple_lt a a"
  by (simp add: tuple_lt_def)

lemma tuple_lt_trans: "tuple_lt a b \<Longrightarrow> tuple_lt b c \<Longrightarrow> tuple_lt a c"
  by (auto simp: tuple_lt_def split: if_splits)

lemma tuple_lt_total: "\<not> tuple_lt a b \<Longrightarrow> \<not> tuple_lt b a \<Longrightarrow> a = b"
  by (cases a; cases b) (auto simp: tuple_lt_def split: if_splits)

lemma tuple_le_trans: "\<not> tuple_lt b a \<Longrightarrow> \<not> tuple_lt c b \<Longrightarrow> \<not> tuple_lt c a"
  by (cases a; cases b; cases c) (auto simp: tuple_lt_def split: if_splits)

lemma min_from_spec:
  assumes "\<forall>x\<in>set rest. \<exists>t. fst x = Inr t"
  shows "\<exists>m. min_from cur rest = Inr m \<and>
           (m = cur \<or> (Inr (fst m), snd m) \<in> set rest) \<and>
           \<not> tuple_lt cur m \<and>
           (\<forall>x\<in>set rest. \<forall>t. fst x = Inr t \<longrightarrow> \<not> tuple_lt (t, snd x) m)"
  using assms
proof (induction rest arbitrary: cur)
  case Nil
  then show ?case by (simp add: tuple_lt_irrefl)
next
  case (Cons x rest)
  obtain r w where x: "x = (r, w)" by (cases x)
  with Cons.prems obtain t0 where t0: "r = Inr t0" by auto
  from Cons.prems have rest: "\<forall>x\<in>set rest. \<exists>t. fst x = Inr t" by simp
  show ?case
  proof (cases "tuple_lt (t0, w) cur")
    case True
    from Cons.IH[OF rest, of "(t0, w)"] obtain m where m: "min_from (t0, w) rest = Inr m"
      and mem: "m = (t0, w) \<or> (Inr (fst m), snd m) \<in> set rest"
      and le: "\<not> tuple_lt (t0, w) m"
      and all: "\<forall>x\<in>set rest. \<forall>t. fst x = Inr t \<longrightarrow> \<not> tuple_lt (t, snd x) m"
      by blast
    have "\<not> tuple_lt cur m"
    proof
      assume "tuple_lt cur m"
      with True have "tuple_lt (t0, w) m" by (rule tuple_lt_trans)
      with le show False by simp
    qed
    with m mem le all x t0 True show ?thesis by auto
  next
    case False
    from Cons.IH[OF rest, of cur] obtain m where m: "min_from cur rest = Inr m"
      and mem: "m = cur \<or> (Inr (fst m), snd m) \<in> set rest"
      and le: "\<not> tuple_lt cur m"
      and all: "\<forall>x\<in>set rest. \<forall>t. fst x = Inr t \<longrightarrow> \<not> tuple_lt (t, snd x) m"
      by blast
    from le False have "\<not> tuple_lt (t0, w) m" by (rule tuple_le_trans)
    with m mem le all x t0 False show ?thesis by auto
  qed
qed

lemma min_gen_spec:
  assumes "gen \<noteq> []" and "\<forall>x\<in>set gen. \<exists>t. fst x = Inr t"
  shows "\<exists>m. min_gen gen = Inr m \<and> (Inr (fst m), snd m) \<in> set gen \<and>
           (\<forall>x\<in>set gen. \<forall>t. fst x = Inr t \<longrightarrow> \<not> tuple_lt (t, snd x) m)"
proof -
  from assms(1) obtain x rest where gen: "gen = x # rest" by (cases gen) auto
  obtain r w where x: "x = (r, w)" by (cases x)
  with assms(2) gen obtain t0 where t0: "r = Inr t0" by auto
  from assms(2) gen have rest: "\<forall>x\<in>set rest. \<exists>t. fst x = Inr t" by simp
  from min_from_spec[OF rest, of "(t0, w)"] obtain m where m: "min_from (t0, w) rest = Inr m"
      and mem: "m = (t0, w) \<or> (Inr (fst m), snd m) \<in> set rest"
      and le: "\<not> tuple_lt (t0, w) m"
      and all: "\<forall>x\<in>set rest. \<forall>t. fst x = Inr t \<longrightarrow> \<not> tuple_lt (t, snd x) m"
    by blast
  with gen x t0 show ?thesis by auto
qed

lemma as_completed_mset:
  assumes "valid_pool pool"
  shows "mset (as_completed pool fs) = mset fs"
proof -
  from assms have m: "mset (pool (length fs)) = mset [0..<length fs]"
    by (simp add: valid_pool_def)
  then have "set (pool (length fs)) = set [0..<length fs]" by (rule mset_eq_setD)
  then have "filter (\<lambda>i. i < length fs) (pool (length fs)) = pool (length fs)"
    by (simp add: filter_id_conv)
  then have "mset (as_completed pool fs) = image_mset (\<lambda>i. fs ! i) (mset (pool (length fs)))"
    by (simp add: as_completed_def)
  also have "\<dots> = image_mset (\<lambda>i. fs ! i) (mset [0..<length fs])"
    using m by simp
  also have "\<dots> = mset (map (\<lambda>i. fs ! i) [0..<length fs])" by simp
  also have "\<dots> = mset fs" by (simp add: map_nth)
  finally show ?thesis .
qed


lemma as_completed_set: "valid_pool pool \<Longrightarrow> set (as_completed pool fs) = set fs"
  using as_completed_mset[of pool fs] by (metis set_mset_mset)

lemma valid_pool_fifo: "valid_pool fifo"
  by (simp add: valid_pool_def fifo_def)

lemma make_guess_with_pool_spec:
  assumes "V \<noteq> []" and "\<forall>w\<in>set V. \<exists>t. score_guess w S = Inr t" and "valid_pool pool"
  shows "\<exists>g s. make_guess_with_pool S V (Some pool) = Inr g \<and> g \<in> set V \<and>
           score_guess g S = Inr s \<and>
           (\<forall>w\<in>set V. \<forall>t. score_guess w S = Inr t \<longrightarrow> s \<le> t \<and> (t = s \<longrightarrow> g \<le> w))"
proof -
  let ?fs = "map (\<lambda>word. (score_guess word S, word)) V"
  let ?gen = "as_completed pool ?fs"
  have set_gen: "set ?gen = set ?fs" using assms(3) by (rule as_completed_set)
  from assms(1) have "set ?fs \<noteq> {}" by simp
  with set_gen have ne: "?gen \<noteq> []" by auto
  have ok: "\<forall>x\<in>set ?gen. \<exists>t. fst x = Inr t" using set_gen assms(2) by auto
  from min_gen_spec[OF ne ok] obtain m where m: "min_gen ?gen = Inr m"
    and mem: "(Inr (fst m), snd m) \<in> set ?gen"
    and all: "\<forall>x\<in>set ?gen. \<forall>t. fst x = Inr t \<longrightarrow> \<not> tuple_lt (t, snd x) m"
    by blast
  obtain s g where sg: "m = (s, g)" by (cases m)
  from mem set_gen sg have gV: "g \<in> set V" and gs: "score_guess g S = Inr s" by auto
  have "s \<le> t \<and> (t = s \<longrightarrow> g \<le> w)" if "w \<in> set V" "score_guess w S = Inr t" for w t
  proof -
    from that(1) have "(score_guess w S, w) \<in> set ?fs" by simp
    with that(2) set_gen have "(Inr t, w) \<in> set ?gen" by simp
    with all sg have "\<not> tuple_lt (t, w) (s, g)" by fastforce
    then show ?thesis by (auto simp: tuple_lt_def split: if_splits)
  qed
  moreover have "make_guess_with_pool S V (Some pool) = Inr g"
    using m sg by (simp add: make_guess_with_pool_def)
  ultimately show ?thesis using gV gs by blast
qed

text \<open>
  C2 (as the code has it): for a non-empty candidate list and a non-empty vocabulary
  none of whose words is longer than a candidate, and a pool that completes every
  future once, \<open>make_guess\<close> and \<open>make_guess_with_pool\<close> each return a vocabulary word
  whose score is the least score over the vocabulary. Ties are broken differently:
  \<open>make_guess\<close> returns the first such word in vocabulary order, \<open>make_guess_with_pool\<close>
  the least such word in string order.
\<close>

theorem sequential_and_flat_select_minimum:
  assumes "S \<noteq> []" and "V \<noteq> []" and "\<forall>g\<in>set V. \<forall>w\<in>set S. length g \<le> length w"
    and "valid_pool pool"
  shows "\<exists>g g' s pre post.
           make_guess S V = Inr g \<and> make_guess_with_pool S V (Some pool) = Inr g' \<and>
           score_guess g S = Inr s \<and> score_guess g' S = Inr s \<and>
           g' \<in> set V \<and> V = pre @ g # post \<and>
           (\<forall>w\<in>set V. \<exists>t. score_guess w S = Inr t \<and> s \<le> t \<and> (t = s \<longrightarrow> g' \<le> w)) \<and>
           (\<forall>w\<in>set pre. \<exists>t. score_guess w S = Inr t \<and> s < t)"
proof -
  have ok: "\<forall>w\<in>set V. \<exists>t. score_guess w S = Inr t"
    using score_guess_total[OF assms(1)] assms(3) by blast
  from make_guess_spec[OF assms(2) ok] obtain g s pre post where
    mg: "make_guess S V = Inr g" and V: "V = pre @ g # post" and gs: "score_guess g S = Inr s"
    and pre: "\<forall>w\<in>set pre. \<forall>t. score_guess w S = Inr t \<longrightarrow> s < t"
    and post: "\<forall>w\<in>set post. \<forall>t. score_guess w S = Inr t \<longrightarrow> s \<le> t"
    by blast
  from make_guess_with_pool_spec[OF assms(2) ok assms(4)] obtain g' s' where
    mp: "make_guess_with_pool S V (Some pool) = Inr g'" and g'V: "g' \<in> set V"
    and g's: "score_guess g' S = Inr s'"
    and least: "\<forall>w\<in>set V. \<forall>t. score_guess w S = Inr t \<longrightarrow> s' \<le> t \<and> (t = s' \<longrightarrow> g' \<le> w)"
    by blast
  have seq_min: "s \<le> t" if "w \<in> set V" "score_guess w S = Inr t" for w t
  proof -
    from that(1) V have "w \<in> set pre \<or> w = g \<or> w \<in> set post" by auto
    with pre post gs that(2) show ?thesis by fastforce
  qed
  from V have "g \<in> set V" by simp
  with least gs have "s' \<le> s" by blast
  moreover from seq_min[OF g'V g's] have "s \<le> s'" .
  ultimately have eq: "s' = s" by simp
  have 1: "\<forall>w\<in>set V. \<exists>t. score_guess w S = Inr t \<and> s \<le> t \<and> (t = s \<longrightarrow> g' \<le> w)"
    using ok least eq by blast
  have 2: "\<forall>w\<in>set pre. \<exists>t. score_guess w S = Inr t \<and> s < t"
  proof
    fix w assume w: "w \<in> set pre"
    with V have "w \<in> set V" by simp
    with ok obtain t where "score_guess w S = Inr t" by blast
    with pre w show "\<exists>t. score_guess w S = Inr t \<and> s < t" by blast
  qed
  from mg mp gs g's eq g'V V 1 2 show ?thesis by blast
qed

lemma slate_crane_selectors:
  "make_guess [''slate'', ''crane''] [''slate'', ''crane''] = Inr ''slate'' \<and>
   make_guess_with_pool [''slate'', ''crane''] [''slate'', ''crane''] (Some fifo) = Inr ''crane''"
  by code_simp

theorem sequential_and_flat_select_minimum_witness:
  "valid_pool fifo \<and>
   make_guess [''slate'', ''crane''] [''slate'', ''crane''] = Inr ''slate'' \<and>
   make_guess_with_pool [''slate'', ''crane''] [''slate'', ''crane''] (Some fifo) = Inr ''crane'' \<and>
   (\<exists>s. score_guess ''slate'' [''slate'', ''crane''] = Inr s \<and>
        score_guess ''crane'' [''slate'', ''crane''] = Inr s)"
proof -
  have ne: "[''slate'', ''crane''] \<noteq> []" by simp
  have wf: "\<forall>g\<in>set [''slate'', ''crane'']. \<forall>w\<in>set [''slate'', ''crane'']. length g \<le> length w"
    by simp
  from sequential_and_flat_select_minimum[OF ne ne wf valid_pool_fifo]
  obtain g g' s where "make_guess [''slate'', ''crane''] [''slate'', ''crane''] = Inr g"
    "make_guess_with_pool [''slate'', ''crane''] [''slate'', ''crane''] (Some fifo) = Inr g'"
    "score_guess g [''slate'', ''crane''] = Inr s" "score_guess g' [''slate'', ''crane''] = Inr s"
    by blast
  with slate_crane_selectors valid_pool_fifo show ?thesis by auto
qed


text \<open>
  On the candidates and vocabulary \<open>slate\<close>, \<open>crane\<close> both words have score 1: the
  sequential selector returns \<open>slate\<close>, the flat-parallel selector \<open>crane\<close>, and the
  chunked selector returns None. On an empty vocabulary \<open>min\<close> raises ValueError.
\<close>

theorem strategies_disagree:
  "make_guess [''slate'', ''crane''] [''slate'', ''crane''] = Inr ''slate'' \<and>
   make_guess_with_pool [''slate'', ''crane''] [''slate'', ''crane''] (Some fifo) = Inr ''crane'' \<and>
   make_guess_with_pool_chunked [''slate'', ''crane''] [''slate'', ''crane''] fifo = Inr None \<and>
   make_guess [''slate'', ''crane''] [] = Inl ValueError"
  by code_simp


section \<open>make_guess_with_loop\<close>

lemma guess_loop_last_score:
  "ws \<noteq> [] \<Longrightarrow> guess_loop S ws ms g sc = Inr (g', sc') \<Longrightarrow>
     \<exists>t. score_guess (last ws) S = Inr t \<and> sc' = Some t"
proof (induction ws arbitrary: ms g sc)
  case Nil
  then show ?case by simp
next
  case (Cons w ws)
  then show ?case
    by (cases "ws = []") (auto split: sum.splits if_splits)
qed

lemma guess_loop_no_update:
  "\<forall>w\<in>set ws. \<exists>t. score_guess w S = Inr t \<and> \<not> t < ms \<Longrightarrow>
     \<exists>sc'. guess_loop S ws ms g sc = Inr (g, sc')"
  by (induction ws arbitrary: sc) auto

lemma make_guess_with_loop_pair:
  assumes "make_guess_with_loop S V True = Inr (ScoreAndGuess t g)"
  shows "V \<noteq> [] \<and> score_guess (last V) S = Inr t"
proof -
  from assms obtain sc where gl: "guess_loop S V (of_nat (length V)) None None = Inr (g, sc)"
    and sc: "sc = Some t"
    by (auto simp: make_guess_with_loop_def split: sum.splits if_splits option.splits)
  have "V \<noteq> []"
  proof
    assume "V = []"
    with gl sc show False by simp
  qed
  with guess_loop_last_score[OF this gl] sc show ?thesis by auto
qed

lemma make_guess_with_loop_no_update:
  assumes "\<forall>w\<in>set V. \<exists>t. score_guess w S = Inr t \<and> \<not> t < of_nat (length V)"
  shows "make_guess_with_loop S V False = Inr (Guess None) \<and>
         (V \<noteq> [] \<longrightarrow> (\<exists>t. score_guess (last V) S = Inr t \<and>
                             make_guess_with_loop S V True = Inr (ScoreAndGuess t None)))"
proof -
  from guess_loop_no_update[OF assms, of None None] obtain sc where
    gl: "guess_loop S V (of_nat (length V)) None None = Inr (None, sc)" by blast
  then have 1: "make_guess_with_loop S V False = Inr (Guess None)"
    by (simp add: make_guess_with_loop_def)
  have 2: "\<exists>t. score_guess (last V) S = Inr t \<and>
               make_guess_with_loop S V True = Inr (ScoreAndGuess t None)" if "V \<noteq> []"
  proof -
    from guess_loop_last_score[OF that gl] obtain t where
      "score_guess (last V) S = Inr t" "sc = Some t" by blast
    with gl show ?thesis by (simp add: make_guess_with_loop_def)
  qed
  from 1 2 show ?thesis by blast
qed

lemma loop_examples:
  "score_guess ''crane'' [''crane'', ''slate''] = Inr 1 \<and>
   score_guess ''fuzzy'' [''crane'', ''slate''] = Inr 2 \<and>
   score_guess ''puppy'' [''crane'', ''slate''] = Inr 2 \<and>
   make_guess_with_loop [''crane'', ''slate''] [''crane'', ''fuzzy''] True
     = Inr (ScoreAndGuess 2 (Some ''crane'')) \<and>
   make_guess_with_loop [''crane'', ''slate''] [''crane''] False = Inr (Guess None)"
  by code_simp

text \<open>
  C9: when every vocabulary word has a score that is not below the length of the
  vocabulary, \<open>make_guess_with_loop\<close> returns None, and with \<open>return_score=True\<close> (on a
  non-empty vocabulary) the pair of the last word's score and None. Every score is at
  least 1, so this is what happens on every one-word vocabulary whose word is not
  longer than a candidate. Whenever a pair is returned, its score is the score of the
  last word of the vocabulary.
\<close>

theorem make_guess_with_loop_misses_minimum:
  "((\<forall>w\<in>set V. \<exists>t. score_guess w S = Inr t \<and> \<not> t < of_nat (length V)) \<longrightarrow>
      make_guess_with_loop S V False = Inr (Guess None) \<and>
      (V \<noteq> [] \<longrightarrow> (\<exists>t. score_guess (last V) S = Inr t \<and>
                          make_guess_with_loop S V True = Inr (ScoreAndGuess t None)))) \<and>
   (\<forall>t. score_guess g S = Inr t \<longrightarrow> 1 \<le> t) \<and>
   (S \<noteq> [] \<and> (\<forall>w\<in>set S. length g \<le> length w) \<longrightarrow>
      make_guess_with_loop S [g] False = Inr (Guess None) \<and>
      (\<exists>t. score_guess g S = Inr t \<and>
           make_guess_with_loop S [g] True = Inr (ScoreAndGuess t None))) \<and>
   (\<forall>t r. make_guess_with_loop S V True = Inr (ScoreAndGuess t r) \<longrightarrow>
      V \<noteq> [] \<and> score_guess (last V) S = Inr t)"
proof -
  have 1: "(\<forall>w\<in>set V. \<exists>t. score_guess w S = Inr t \<and> \<not> t < of_nat (length V)) \<longrightarrow>
      make_guess_with_loop S V False = Inr (Guess None) \<and>
      (V \<noteq> [] \<longrightarrow> (\<exists>t. score_guess (last V) S = Inr t \<and>
                          make_guess_with_loop S V True = Inr (ScoreAndGuess t None)))"
    using make_guess_with_loop_no_update by blast
  have 2: "\<forall>t. score_guess g S = Inr t \<longrightarrow> 1 \<le> t"
    using score_guess_ge_1 by blast
  have 3: "make_guess_with_loop S [g] False = Inr (Guess None) \<and>
      (\<exists>t. score_guess g S = Inr t \<and>
           make_guess_with_loop S [g] True = Inr (ScoreAndGuess t None))"
    if "S \<noteq> []" "\<forall>w\<in>set S. length g \<le> length w"
  proof -
    from score_guess_total[OF that] obtain t where t: "score_guess g S = Inr t" by blast
    with score_guess_ge_1 have "\<not> t < of_nat (length [g])" by fastforce
    with t have "\<forall>w\<in>set [g]. \<exists>t. score_guess w S = Inr t \<and> \<not> t < of_nat (length [g])"
      by simp
    from make_guess_with_loop_no_update[OF this] t show ?thesis by simp
  qed
  have 4: "\<forall>t r. make_guess_with_loop S V True = Inr (ScoreAndGuess t r) \<longrightarrow>
      V \<noteq> [] \<and> score_guess (last V) S = Inr t"
    using make_guess_with_loop_pair by blast
  from 1 2 3 4 show ?thesis by blast
qed


theorem make_guess_with_loop_misses_minimum_witness:
  "make_guess_with_loop [''crane'', ''slate''] [''fuzzy'', ''puppy''] False = Inr (Guess None) \<and>
   make_guess_with_loop [''crane'', ''slate''] [''fuzzy'', ''puppy''] True
     = Inr (ScoreAndGuess 2 None) \<and>
   make_guess_with_loop [''crane'', ''slate''] [''crane''] False = Inr (Guess None) \<and>
   make_guess_with_loop [''crane'', ''slate''] [''crane''] True = Inr (ScoreAndGuess 1 None) \<and>
   make_guess_with_loop [''crane'', ''slate''] [''crane'', ''fuzzy''] True
     = Inr (ScoreAndGuess 2 (Some ''crane'')) \<and>
   score_guess (last [''crane'', ''fuzzy'']) [''crane'', ''slate''] = Inr 2 \<and>
   score_guess ''crane'' [''crane'', ''slate''] = Inr 1 \<and>
   score_guess ''fuzzy'' [''crane'', ''slate''] = Inr 2 \<and> (1 :: rat) \<le> 2"
proof -
  note none = make_guess_with_loop_misses_minimum[of "[''fuzzy'', ''puppy'']"
      "[''crane'', ''slate'']" "''crane''"]
  note last = make_guess_with_loop_misses_minimum[of "[''crane'', ''fuzzy'']"
      "[''crane'', ''slate'']" "''crane''"]
  have high: "\<forall>w\<in>set [''fuzzy'', ''puppy''].
      \<exists>t. score_guess w [''crane'', ''slate''] = Inr t \<and> \<not> t < of_nat (length [''fuzzy'', ''puppy''])"
    using loop_examples by simp
  have wf: "[''crane'', ''slate''] \<noteq> [] \<and> (\<forall>w\<in>set [''crane'', ''slate'']. length ''crane'' \<le> length w)"
    by simp
  from none high have 1:
    "make_guess_with_loop [''crane'', ''slate''] [''fuzzy'', ''puppy''] False = Inr (Guess None)"
    by blast
  from none high have "\<exists>t. score_guess (last [''fuzzy'', ''puppy'']) [''crane'', ''slate''] = Inr t \<and>
      make_guess_with_loop [''crane'', ''slate''] [''fuzzy'', ''puppy''] True = Inr (ScoreAndGuess t None)"
    by blast
  with loop_examples have 2:
    "make_guess_with_loop [''crane'', ''slate''] [''fuzzy'', ''puppy''] True = Inr (ScoreAndGuess 2 None)"
    by auto
  from none wf have 3:
    "make_guess_with_loop [''crane'', ''slate''] [''crane''] False = Inr (Guess None)"
    by blast
  from none wf have "\<exists>t. score_guess ''crane'' [''crane'', ''slate''] = Inr t \<and>
      make_guess_with_loop [''crane'', ''slate''] [''crane''] True = Inr (ScoreAndGuess t None)"
    by blast
  with loop_examples have 4:
    "make_guess_with_loop [''crane'', ''slate''] [''crane''] True = Inr (ScoreAndGuess 1 None)"
    by auto
  from last loop_examples have 5:
    "score_guess (last [''crane'', ''fuzzy'']) [''crane'', ''slate''] = Inr 2"
    by blast
  note bound = make_guess_with_loop_misses_minimum[of "[''fuzzy'']"
      "[''crane'', ''slate'']" "''fuzzy''"]
  from bound loop_examples have 6: "(1 :: rat) \<le> 2"
    by blast
  from 1 2 3 4 5 6 loop_examples show ?thesis by blast
qed


section \<open>Scenario B\<close>

text \<open>
  C4 (as the code has it): \<open>classify_guess("aaaaa", "abcde")\<close> is GREEN followed by
  four YELLOW: every later \<open>a\<close> of the guess occurs in the answer.
\<close>

theorem classify_aaaaa_abcde:
  "classify_guess ''aaaaa'' ''abcde'' = Inr [GREEN, YELLOW, YELLOW, YELLOW, YELLOW]"
  by (simp add: classify_guess_def label_def)

theorem classify_aaaaa_abcde_not_blank:
  "classify_guess ''aaaaa'' ''abcde'' \<noteq> Inr [GREEN, BLANK, BLANK, BLANK, BLANK]"
  by (simp add: classify_guess_def label_def)

section \<open>The game loop\<close>
























lemma play_loop_after_turns:
  "after_turns tw hard mode p k s = Some s' \<Longrightarrow>
     play_loop tw hard mode p s = play_loop tw hard mode p s'"
proof (induction k arbitrary: s)
  case 0
  then show ?case by simp
next
  case (Suc k)
  from Suc.prems have c: "1 < length (potential_answers s)" by (auto split: if_splits)
  with Suc.prems obtain s1 where t: "turn tw hard mode p s = Inr s1"
    and r: "after_turns tw hard mode p k s1 = Some s'"
    by (auto split: sum.splits)
  have "play_loop tw hard mode p s = play_loop tw hard mode p s1"
    using c t by (subst play_loop.simps) simp
  with Suc.IH[OF r] show ?case by simp
qed



lemma play_wordle_limit:
  assumes init: "init_game words fg tw hard = Inr s0"
    and reach: "after_turns tw hard mode p k s0 = Some s"
    and more: "1 < length (potential_answers s)"
    and raised: "turn tw hard mode p s = Inl e"
  shows "play_wordle words fg tw hard mode p = Inl e"
proof -
  have "play_loop tw hard mode p s0 = play_loop tw hard mode p s"
    using reach by (rule play_loop_after_turns)
  also have "\<dots> = Inl e"
    using more raised by (subst play_loop.simps) simp
  finally show ?thesis using init by (simp add: play_wordle_def)
qed


section \<open>The guess limit\<close>

















text \<open>
  A game in which the selector raises in the turn entered with 21 entries: 20 such
  words and the target twice, in easy mode. The 21st guess is the target, which leaves
  both copies as candidates and an empty vocabulary; turn 22 ends with the ValueError
  of \<open>min\<close>, not with the limit.
\<close>

lemma twin_game_after_21:
  "after_turns ''zzzzz'' False NO_POOL fifo 21
     \<lparr>potential_answers =
       [''aaaaa'', ''bbbbb'', ''ccccc'', ''ddddd'', ''eeeee'', ''fffff'', ''ggggg'',
       ''hhhhh'', ''iiiii'', ''jjjjj'', ''kkkkk'', ''lllll'', ''mmmmm'', ''nnnnn'',
       ''ooooo'', ''ppppp'', ''qqqqq'', ''rrrrr'', ''sssss'', ''ttttt'', ''zzzzz'',
       ''zzzzz''],
     guesses =
       [''aaaaa'', ''bbbbb'', ''ccccc'', ''ddddd'', ''eeeee'', ''fffff'', ''ggggg'',
       ''hhhhh'', ''iiiii'', ''jjjjj'', ''kkkkk'', ''lllll'', ''mmmmm'', ''nnnnn'',
       ''ooooo'', ''ppppp'', ''qqqqq'', ''rrrrr'', ''sssss'', ''ttttt'', ''zzzzz'',
       ''zzzzz''],
     guess_list =
       []\<rparr>
   = Some
     \<lparr>potential_answers =
       [''zzzzz'', ''zzzzz''],
     guesses =
       [],
     guess_list =
       [''aaaaa'', ''bbbbb'', ''ccccc'', ''ddddd'', ''eeeee'', ''fffff'', ''ggggg'',
       ''hhhhh'', ''iiiii'', ''jjjjj'', ''kkkkk'', ''lllll'', ''mmmmm'', ''nnnnn'',
       ''ooooo'', ''ppppp'', ''qqqqq'', ''rrrrr'', ''sssss'', ''ttttt'', ''zzzzz'']\<rparr>"
  by code_simp

lemma twin_game_selector_raises:
  "init_game
      [''aaaaa'', ''bbbbb'', ''ccccc'', ''ddddd'', ''eeeee'', ''fffff'', ''ggggg'',
       ''hhhhh'', ''iiiii'', ''jjjjj'', ''kkkkk'', ''lllll'', ''mmmmm'', ''nnnnn'',
       ''ooooo'', ''ppppp'', ''qqqqq'', ''rrrrr'', ''sssss'', ''ttttt'', ''zzzzz'',
       ''zzzzz'']
      None ''zzzzz'' False
   = Inr
     \<lparr>potential_answers =
       [''aaaaa'', ''bbbbb'', ''ccccc'', ''ddddd'', ''eeeee'', ''fffff'', ''ggggg'',
       ''hhhhh'', ''iiiii'', ''jjjjj'', ''kkkkk'', ''lllll'', ''mmmmm'', ''nnnnn'',
       ''ooooo'', ''ppppp'', ''qqqqq'', ''rrrrr'', ''sssss'', ''ttttt'', ''zzzzz'',
       ''zzzzz''],
     guesses =
       [''aaaaa'', ''bbbbb'', ''ccccc'', ''ddddd'', ''eeeee'', ''fffff'', ''ggggg'',
       ''hhhhh'', ''iiiii'', ''jjjjj'', ''kkkkk'', ''lllll'', ''mmmmm'', ''nnnnn'',
       ''ooooo'', ''ppppp'', ''qqqqq'', ''rrrrr'', ''sssss'', ''ttttt'', ''zzzzz'',
       ''zzzzz''],
     guess_list =
       []\<rparr> \<and>
   after_turns ''zzzzz'' False NO_POOL fifo 21
     \<lparr>potential_answers =
       [''aaaaa'', ''bbbbb'', ''ccccc'', ''ddddd'', ''eeeee'', ''fffff'', ''ggggg'',
       ''hhhhh'', ''iiiii'', ''jjjjj'', ''kkkkk'', ''lllll'', ''mmmmm'', ''nnnnn'',
       ''ooooo'', ''ppppp'', ''qqqqq'', ''rrrrr'', ''sssss'', ''ttttt'', ''zzzzz'',
       ''zzzzz''],
     guesses =
       [''aaaaa'', ''bbbbb'', ''ccccc'', ''ddddd'', ''eeeee'', ''fffff'', ''ggggg'',
       ''hhhhh'', ''iiiii'', ''jjjjj'', ''kkkkk'', ''lllll'', ''mmmmm'', ''nnnnn'',
       ''ooooo'', ''ppppp'', ''qqqqq'', ''rrrrr'', ''sssss'', ''ttttt'', ''zzzzz'',
       ''zzzzz''],
     guess_list =
       []\<rparr>
   = Some
     \<lparr>potential_answers =
       [''zzzzz'', ''zzzzz''],
     guesses =
       [],
     guess_list =
       [''aaaaa'', ''bbbbb'', ''ccccc'', ''ddddd'', ''eeeee'', ''fffff'', ''ggggg'',
       ''hhhhh'', ''iiiii'', ''jjjjj'', ''kkkkk'', ''lllll'', ''mmmmm'', ''nnnnn'',
       ''ooooo'', ''ppppp'', ''qqqqq'', ''rrrrr'', ''sssss'', ''ttttt'', ''zzzzz'']\<rparr> \<and>
   select_guess NO_POOL fifo [''zzzzz'', ''zzzzz''] [] = Inl ValueError \<and>
   turn ''zzzzz'' False NO_POOL fifo
     \<lparr>potential_answers =
       [''zzzzz'', ''zzzzz''],
     guesses =
       [],
     guess_list =
       [''aaaaa'', ''bbbbb'', ''ccccc'', ''ddddd'', ''eeeee'', ''fffff'', ''ggggg'',
       ''hhhhh'', ''iiiii'', ''jjjjj'', ''kkkkk'', ''lllll'', ''mmmmm'', ''nnnnn'',
       ''ooooo'', ''ppppp'', ''qqqqq'', ''rrrrr'', ''sssss'', ''ttttt'', ''zzzzz'']\<rparr>
   = Inl ValueError \<and>
   play_wordle
      [''aaaaa'', ''bbbbb'', ''ccccc'', ''ddddd'', ''eeeee'', ''fffff'', ''ggggg'',
       ''hhhhh'', ''iiiii'', ''jjjjj'', ''kkkkk'', ''lllll'', ''mmmmm'', ''nnnnn'',
       ''ooooo'', ''ppppp'', ''qqqqq'', ''rrrrr'', ''sssss'', ''ttttt'', ''zzzzz'',
       ''zzzzz'']
      None ''zzzzz'' False NO_POOL fifo
   = Inl ValueError"
proof -
  have init: "init_game
      [''aaaaa'', ''bbbbb'', ''ccccc'', ''ddddd'', ''eeeee'', ''fffff'', ''ggggg'',
       ''hhhhh'', ''iiiii'', ''jjjjj'', ''kkkkk'', ''lllll'', ''mmmmm'', ''nnnnn'',
       ''ooooo'', ''ppppp'', ''qqqqq'', ''rrrrr'', ''sssss'', ''ttttt'', ''zzzzz'',
       ''zzzzz'']
      None ''zzzzz'' False
   = Inr
     \<lparr>potential_answers =
       [''aaaaa'', ''bbbbb'', ''ccccc'', ''ddddd'', ''eeeee'', ''fffff'', ''ggggg'',
       ''hhhhh'', ''iiiii'', ''jjjjj'', ''kkkkk'', ''lllll'', ''mmmmm'', ''nnnnn'',
       ''ooooo'', ''ppppp'', ''qqqqq'', ''rrrrr'', ''sssss'', ''ttttt'', ''zzzzz'',
       ''zzzzz''],
     guesses =
       [''aaaaa'', ''bbbbb'', ''ccccc'', ''ddddd'', ''eeeee'', ''fffff'', ''ggggg'',
       ''hhhhh'', ''iiiii'', ''jjjjj'', ''kkkkk'', ''lllll'', ''mmmmm'', ''nnnnn'',
       ''ooooo'', ''ppppp'', ''qqqqq'', ''rrrrr'', ''sssss'', ''ttttt'', ''zzzzz'',
       ''zzzzz''],
     guess_list =
       []\<rparr>"
    by (simp add: init_game_def)
  have sel: "select_guess NO_POOL fifo [''zzzzz'', ''zzzzz''] [] = Inl ValueError"
    by (simp add: select_guess_def)
  have raised: "turn ''zzzzz'' False NO_POOL fifo
     \<lparr>potential_answers =
       [''zzzzz'', ''zzzzz''],
     guesses =
       [],
     guess_list =
       [''aaaaa'', ''bbbbb'', ''ccccc'', ''ddddd'', ''eeeee'', ''fffff'', ''ggggg'',
       ''hhhhh'', ''iiiii'', ''jjjjj'', ''kkkkk'', ''lllll'', ''mmmmm'', ''nnnnn'',
       ''ooooo'', ''ppppp'', ''qqqqq'', ''rrrrr'', ''sssss'', ''ttttt'', ''zzzzz'']\<rparr>
   = Inl ValueError"
    by (simp add: turn_def select_guess_def)
  have more: "1 < length (potential_answers
     \<lparr>potential_answers =
       [''zzzzz'', ''zzzzz''],
     guesses =
       [],
     guess_list =
       [''aaaaa'', ''bbbbb'', ''ccccc'', ''ddddd'', ''eeeee'', ''fffff'', ''ggggg'',
       ''hhhhh'', ''iiiii'', ''jjjjj'', ''kkkkk'', ''lllll'', ''mmmmm'', ''nnnnn'',
       ''ooooo'', ''ppppp'', ''qqqqq'', ''rrrrr'', ''sssss'', ''ttttt'', ''zzzzz'']\<rparr>)"
    by simp
  show ?thesis
    by (intro conjI init twin_game_after_21 sel raised
        play_wordle_limit[OF init twin_game_after_21 more raised])
qed





section \<open>The vocabulary handed to the selector\<close>

text \<open>
  In hard mode the vocabulary after a turn is the candidate list without every word of
  the guess list. In easy mode it is the dictionary without the guesses that the loop
  selected; the seed guess, the first entry of a seeded guess list, is not removed.
\<close>

lemma hard_vocabulary_after_turn:
  assumes "turn tw True mode p s = Inr s'"
  shows "guesses s' = filter (\<lambda>i. i \<notin> set (guess_list s')) (potential_answers s')"
proof -
  from turn_Inr[OF assms] obtain guess where
    "guess_list s' = guess_list s @ [guess]"
    "guesses s' = filter (\<lambda>i. i \<noteq> guess \<and> i \<notin> set (guess_list s)) (potential_answers s')"
    by auto
  then show ?thesis by (auto intro: filter_cong)
qed

lemma easy_vocabulary_step:
  assumes t: "turn tw False mode p s = Inr s'"
    and inv: "guesses s = filter (\<lambda>i. i \<notin> set (drop d (guess_list s))) words"
    and d: "d \<le> length (guess_list s)"
  shows "guesses s' = filter (\<lambda>i. i \<notin> set (drop d (guess_list s'))) words \<and>
         d \<le> length (guess_list s')"
proof -
  from turn_Inr[OF t] obtain guess where
    gl: "guess_list s' = guess_list s @ [guess]"
    and gs: "guesses s' = filter (\<lambda>i. i \<noteq> guess) (guesses s)"
    by auto
  from gl d have "drop d (guess_list s') = drop d (guess_list s) @ [guess]" by simp
  with gs inv gl d show ?thesis by (auto intro: filter_cong)
qed

lemma easy_vocabulary_after_turns:
  "after_turns tw False mode p k s = Some s' \<Longrightarrow>
   guesses s = filter (\<lambda>i. i \<notin> set (drop d (guess_list s))) words \<Longrightarrow>
   d \<le> length (guess_list s) \<Longrightarrow>
   guesses s' = filter (\<lambda>i. i \<notin> set (drop d (guess_list s'))) words"
proof (induction k arbitrary: s)
  case 0
  then show ?case by simp
next
  case (Suc k)
  from Suc.prems(1) obtain s1 where t: "turn tw False mode p s = Inr s1"
    and r: "after_turns tw False mode p k s1 = Some s'"
    by (auto split: if_splits sum.splits)
  from easy_vocabulary_step[OF t Suc.prems(2,3)] Suc.IH[OF r] show ?case by blast
qed

lemma easy_vocabulary:
  assumes init: "init_game words fg tw False = Inr s0"
    and reach: "after_turns tw False mode p k s0 = Some s"
  shows "guesses s = filter (\<lambda>i. i \<notin> set (drop (case fg of None \<Rightarrow> 0 | Some g \<Rightarrow> 1) (guess_list s))) words"
proof -
  let ?d = "case fg of None \<Rightarrow> 0 | Some g \<Rightarrow> 1"
  from init_game_Inr[OF init] have "guesses s0 = filter (\<lambda>i. i \<notin> set (drop ?d (guess_list s0))) words"
    and "?d \<le> length (guess_list s0)"
    by (cases fg; simp)+
  with reach show ?thesis by (rule easy_vocabulary_after_turns)
qed


text \<open>
  C6 fails in easy mode with a seed guess: with the dictionary \<open>crane\<close>, \<open>slate\<close>,
  \<open>stale\<close>, \<open>shade\<close>, the seed \<open>crane\<close> and the target \<open>shade\<close>, the vocabulary of the
  first turn is the whole dictionary, and the vocabulary after that turn still holds
  \<open>crane\<close>, which is in the guess list.
\<close>

theorem easy_mode_vocabulary_keeps_seed:
  "init_game [''crane'', ''slate'', ''stale'', ''shade''] (Some ''crane'') ''shade'' False
     = Inr \<lparr>potential_answers = [''slate'', ''stale'', ''shade''],
            guesses = [''crane'', ''slate'', ''stale'', ''shade''],
            guess_list = [''crane'']\<rparr> \<and>
   turn ''shade'' False NO_POOL fifo
     \<lparr>potential_answers = [''slate'', ''stale'', ''shade''],
      guesses = [''crane'', ''slate'', ''stale'', ''shade''],
      guess_list = [''crane'']\<rparr>
     = Inr \<lparr>potential_answers = [''shade''],
            guesses = [''crane'', ''stale'', ''shade''],
            guess_list = [''crane'', ''slate'']\<rparr>"
  by code_simp


section \<open>The final guess\<close>

text \<open>
  C10: in a game of \<open>play_wordle\<close>, when a turn of the loop selects the word \<open>c\<close> and
  leaves \<open>c\<close> as the only candidate, \<open>play_wordle\<close> returns the guess list of before
  that turn followed by \<open>c\<close> twice.
\<close>

theorem solved_history_repeats_last_guess:
  assumes init: "init_game words fg tw hard = Inr s0"
    and reach: "after_turns tw hard mode p k s0 = Some s"
    and more: "1 < length (potential_answers s)"
    and chosen: "select_guess mode p (potential_answers s) (guesses s) = Inr (Some c)"
    and final: "turn tw hard mode p s = Inr s'"
    and sole: "potential_answers s' = [c]"
  shows "play_wordle words fg tw hard mode p = Inr (guess_list s @ [c, c])"
proof -
  from turn_Inr[OF final] chosen have gl: "guess_list s' = guess_list s @ [c]" by auto
  have "play_loop tw hard mode p s0 = play_loop tw hard mode p s"
    using reach by (rule play_loop_after_turns)
  also have "\<dots> = play_loop tw hard mode p s'"
    using more final by (subst play_loop.simps) simp
  also have "\<dots> = Inr s'"
    using sole by (subst play_loop.simps) simp
  finally show ?thesis using init sole gl by (simp add: play_wordle_def)
qed

lemma snake_first_game:
  "select_guess NO_POOL fifo [''snake'', ''crane'', ''slate''] [''snake'', ''crane'', ''slate'']
     = Inr (Some ''snake'') \<and>
   turn ''snake'' True NO_POOL fifo
     \<lparr>potential_answers = [''snake'', ''crane'', ''slate''],
      guesses = [''snake'', ''crane'', ''slate''], guess_list = []\<rparr>
     = Inr \<lparr>potential_answers = [''snake''], guesses = [], guess_list = [''snake'']\<rparr>"
  by code_simp

theorem solved_history_repeats_last_guess_witness:
  "init_game [''snake'', ''crane'', ''slate''] None ''snake'' True
     = Inr \<lparr>potential_answers = [''snake'', ''crane'', ''slate''],
            guesses = [''snake'', ''crane'', ''slate''], guess_list = []\<rparr> \<and>
   select_guess NO_POOL fifo [''snake'', ''crane'', ''slate''] [''snake'', ''crane'', ''slate'']
     = Inr (Some ''snake'') \<and>
   turn ''snake'' True NO_POOL fifo
     \<lparr>potential_answers = [''snake'', ''crane'', ''slate''],
      guesses = [''snake'', ''crane'', ''slate''], guess_list = []\<rparr>
     = Inr \<lparr>potential_answers = [''snake''], guesses = [], guess_list = [''snake'']\<rparr> \<and>
   play_wordle [''snake'', ''crane'', ''slate''] None ''snake'' True NO_POOL fifo
     = Inr [''snake'', ''snake'']"
proof -
  let ?s0 = "\<lparr>potential_answers = [''snake'', ''crane'', ''slate''],
      guesses = [''snake'', ''crane'', ''slate''], guess_list = []\<rparr>"
  let ?s1 = "\<lparr>potential_answers = [''snake''], guesses = [], guess_list = [''snake'']\<rparr>"
  have init: "init_game [''snake'', ''crane'', ''slate''] None ''snake'' True = Inr ?s0"
    by (simp add: init_game_def)
  have reach: "after_turns ''snake'' True NO_POOL fifo 0 ?s0 = Some ?s0" by simp
  have more: "1 < length (potential_answers ?s0)" by simp
  have chosen: "select_guess NO_POOL fifo (potential_answers ?s0) (guesses ?s0) = Inr (Some ''snake'')"
    using snake_first_game by simp
  have final: "turn ''snake'' True NO_POOL fifo ?s0 = Inr ?s1"
    using snake_first_game by simp
  have sole: "potential_answers ?s1 = [''snake'']" by simp
  from solved_history_repeats_last_guess[OF init reach more chosen final sole]
  have "play_wordle [''snake'', ''crane'', ''slate''] None ''snake'' True NO_POOL fifo
     = Inr [''snake'', ''snake'']"
    by simp
  with init snake_first_game show ?thesis by simp
qed


end
